theory Spec2Isabelle
  imports Main "HOL-Library.Multiset" "HOL-Library.Sublist"
begin

section \<open>Data model\<close>

text \<open>
  The import layer of the viewer: the records that travel through the import
  pipeline (\<^verbatim>\<open>src/actions/loadUserFiles.ts\<close>, \<^verbatim>\<open>src/io/zip.ts\<close> and the
  single-file import handler). Strings are JavaScript strings, written as
  \<^typ>\<open>string\<close>; the payload of a \<^verbatim>\<open>Blob\<close> is a list of bytes.
\<close>

type_synonym Blob = "nat list"

text \<open>A browser \<^verbatim>\<open>File\<close>: \<^verbatim>\<open>new File([blob], fileName)\<close>.\<close>

record File =
  name :: string
  bits :: Blob

text \<open>
  Modelled from the spec: the declarations of \<^verbatim>\<open>DataSource\<close> and of its
  \<^verbatim>\<open>fileSrc\<close> are in \<^verbatim>\<open>io/import/dataSource\<close>, which is not among the
  sources. The file source has the fields the handlers read, the file
  (\<^verbatim>\<open>fileSrc.file\<close>, here \<open>srcFile\<close>) and its file-type classification; a data
  source has, as the spec lists them, an optional file source, an optional
  path inside the archive it was taken from and an optional parent it was
  derived from.
\<close>

record FileSource =
  fileType :: string
  srcFile :: File

datatype DataSource =
  DataSource (fileSrc: "FileSource option") (archiveSrc: "string option")
    (parent: "DataSource option")

datatype DataType = image | dicom | model

text \<open>
  Modelled from the spec: \<^verbatim>\<open>ImportResult\<close> of \<^verbatim>\<open>io/import/common\<close>, which is
  not among the sources, is \<^verbatim>\<open>{ dataID, dataSource, dataType }\<close> with the
  data type one of image, dicom and model.
\<close>

record ImportResult =
  dataID :: string
  dataSource :: DataSource
  dataType :: DataType

section \<open>Choosing the base DICOM volume\<close>

text \<open>
  Modelled from the spec: the DICOM store (\<^verbatim>\<open>store/dicom\<close>) is not among the
  sources. Of \<^verbatim>\<open>dicomStore.volumeInfo[dataID]\<close> the function \<^verbatim>\<open>findBaseDicom\<close>
  reads the modality and the number of slices, which the spec has as possibly
  missing; the store itself is a dictionary from data IDs to volume
  information.
\<close>

record VolumeInfo =
  Modality :: string
  NumberOfSlices :: "nat option"

type_synonym DICOMStore = "string \<rightharpoonup> VolumeInfo"

text \<open>
  \<^verbatim>\<open>const BASE_MODALITY_TYPES = { CT: { priority: 3 }, MR: { priority: 3 },
  US: { priority: 2 }, DX: { priority: 1 } }\<close>, under the comment
  ``higher value priority is preferred for picking a primary selection''.
\<close>

definition BASE_MODALITY_TYPES :: "(string \<times> int) list" where
  "BASE_MODALITY_TYPES = [(''CT'', 3), (''MR'', 3), (''US'', 2), (''DX'', 1)]"

text \<open>
  The table is an object literal, so the operator \<^verbatim>\<open>in\<close> also answers true for
  the property names it inherits from \<^verbatim>\<open>Object.prototype\<close>.
\<close>

definition Object_prototype_keys :: "string list" where
  "Object_prototype_keys =
     [''constructor'', ''__defineGetter__'', ''__defineSetter__'', ''hasOwnProperty'',
      ''__lookupGetter__'', ''__lookupSetter__'', ''isPrototypeOf'',
      ''propertyIsEnumerable'', ''toString'', ''valueOf'', ''__proto__'',
      ''toLocaleString'']"

definition in_BASE_MODALITY_TYPES :: "string \<Rightarrow> bool" where
  "in_BASE_MODALITY_TYPES modality \<longleftrightarrow>
     modality \<in> set (map fst BASE_MODALITY_TYPES) \<or> modality \<in> set Object_prototype_keys"

text \<open>
  \<^verbatim>\<open>BASE_MODALITY_TYPES[modality]?.priority\<close>: a number for the four own keys,
  \<^verbatim>\<open>undefined\<close> (here \<open>None\<close>) for everything else.
\<close>

definition priority_of :: "string \<Rightarrow> int option" where
  "priority_of modality = map_of BASE_MODALITY_TYPES modality"

text \<open>The object the \<^verbatim>\<open>map\<close> callback of \<^verbatim>\<open>findBaseDicom\<close> builds.\<close>

record Candidate =
  dicomSource :: ImportResult
  priority :: "int option"
  volumeInfo :: VolumeInfo

text \<open>
  The callback of \<^verbatim>\<open>dicoms.map\<close>: \<open>None\<close> is its \<^verbatim>\<open>undefined\<close>. A data ID
  without volume information has the modality \<^verbatim>\<open>undefined\<close>, which is not
  \<^verbatim>\<open>in\<close> the table.
\<close>

definition toCandidate :: "DICOMStore \<Rightarrow> ImportResult \<Rightarrow> Candidate option" where
  "toCandidate store src =
     (case store (dataID src) of
        None \<Rightarrow> None
      | Some info \<Rightarrow>
          if in_BASE_MODALITY_TYPES (Modality info)
          then Some \<lparr>dicomSource = src, priority = priority_of (Modality info),
                     volumeInfo = info\<rparr>
          else None)"

text \<open>\<^verbatim>\<open>.filter(nonNullable)\<close> after the \<^verbatim>\<open>map\<close>.\<close>

fun nonNullable :: "'a option list \<Rightarrow> 'a list" where
  "nonNullable [] = []"
| "nonNullable (None # xs) = nonNullable xs"
| "nonNullable (Some x # xs) = x # nonNullable xs"

text \<open>
  JavaScript numbers that the comparator produces: an integer or \<^verbatim>\<open>NaN\<close>
  (\<open>None\<close>), which is what subtracting \<^verbatim>\<open>undefined\<close> gives.
\<close>

definition minus_js :: "int option \<Rightarrow> int option \<Rightarrow> int option" where
  "minus_js a b = (case (a, b) of (Some x, Some y) \<Rightarrow> Some (x - y) | _ \<Rightarrow> None)"

text \<open>\<^verbatim>\<open>!info.NumberOfSlices\<close>: true for a missing count and for the count 0.\<close>

definition noSlices :: "VolumeInfo \<Rightarrow> bool" where
  "noSlices info \<longleftrightarrow> (case NumberOfSlices info of None \<Rightarrow> True | Some n \<Rightarrow> n = 0)"

definition slices :: "VolumeInfo \<Rightarrow> nat" where
  "slices info = (case NumberOfSlices info of None \<Rightarrow> 0 | Some n \<Rightarrow> n)"

text \<open>The comparator handed to \<^verbatim>\<open>sort\<close>, lines 53 to 63.\<close>

definition compareFn :: "Candidate \<Rightarrow> Candidate \<Rightarrow> int option" where
  "compareFn A B =
     (let priorityDiff = minus_js (priority A) (priority B) in
      if priorityDiff \<noteq> Some 0 then priorityDiff
      else if noSlices (volumeInfo A) then Some 1
      else if noSlices (volumeInfo B) then Some (- 1)
      else Some (int (slices (volumeInfo B)) - int (slices (volumeInfo A))))"

text \<open>
  \<^verbatim>\<open>Array.prototype.sort\<close> with a comparator. The language fixes that the sort
  is stable and that a comparator result \<^verbatim>\<open>NaN\<close> counts as 0; the sequence of
  comparisons is left to the engine. The model is the stable insertion sort:
  each element, from left to right, goes in front of the first element of the
  sorted prefix that it is strictly less than (comparator result below 0).
  Two candidates of one priority that both lack a slice count each compare
  as greater than the other; for such a pair the language leaves the order
  to the engine, and this sort keeps them in the order of the input.
\<close>

definition SortCompare :: "('a \<Rightarrow> 'a \<Rightarrow> int option) \<Rightarrow> 'a \<Rightarrow> 'a \<Rightarrow> int" where
  "SortCompare cmp x y = (case cmp x y of None \<Rightarrow> 0 | Some v \<Rightarrow> v)"

fun insert_sorted :: "('a \<Rightarrow> 'a \<Rightarrow> int option) \<Rightarrow> 'a \<Rightarrow> 'a list \<Rightarrow> 'a list" where
  "insert_sorted cmp e [] = [e]"
| "insert_sorted cmp e (x # xs) =
     (if SortCompare cmp e x < 0 then e # x # xs else x # insert_sorted cmp e xs)"

definition Array_sort :: "('a \<Rightarrow> 'a \<Rightarrow> int option) \<Rightarrow> 'a list \<Rightarrow> 'a list" where
  "Array_sort cmp xs = foldl (\<lambda>acc e. insert_sorted cmp e acc) [] xs"

text \<open>The sorted list \<^verbatim>\<open>baseDicomVolumes\<close> of \<^verbatim>\<open>findBaseDicom\<close>.\<close>

definition baseDicomVolumes :: "DICOMStore \<Rightarrow> ImportResult list \<Rightarrow> Candidate list" where
  "baseDicomVolumes store loadableDataSources =
     (let dicoms = filter (\<lambda>r. dataType r = dicom) loadableDataSources in
      Array_sort compareFn (nonNullable (map (toCandidate store) dicoms)))"

definition findBaseDicom :: "DICOMStore \<Rightarrow> ImportResult list \<Rightarrow> ImportResult option" where
  "findBaseDicom store loadableDataSources =
     (case baseDicomVolumes store loadableDataSources of
        [] \<Rightarrow> None
      | c # _ \<Rightarrow> Some (dicomSource c))"

text \<open>
  What the sort asks of the comparator: \<open>x\<close> goes in front of \<open>y\<close> when the
  comparison is below 0. The insertion sort orders a list when this relation
  is asymmetric and transitive on its elements.
\<close>

definition sorts_before :: "('a \<Rightarrow> 'a \<Rightarrow> int option) \<Rightarrow> 'a \<Rightarrow> 'a \<Rightarrow> bool" where
  "sorts_before cmp x y \<longleftrightarrow> SortCompare cmp x y < 0"

definition strict_on :: "('a \<Rightarrow> 'a \<Rightarrow> int option) \<Rightarrow> 'a set \<Rightarrow> bool" where
  "strict_on cmp S \<longleftrightarrow>
     (\<forall>x\<in>S. \<forall>y\<in>S. sorts_before cmp x y \<longrightarrow> \<not> sorts_before cmp y x) \<and>
     (\<forall>x\<in>S. \<forall>y\<in>S. \<forall>z\<in>S.
        sorts_before cmp x y \<longrightarrow> sorts_before cmp y z \<longrightarrow> sorts_before cmp x z)"

text \<open>
  No volume of the batch has a modality that is the name of a property
  inherited from \<^verbatim>\<open>Object.prototype\<close>: then every candidate has a priority
  from the table, and every other modality is left out by the \<^verbatim>\<open>in\<close> test.
\<close>

definition no_inherited_modality :: "DICOMStore \<Rightarrow> ImportResult list \<Rightarrow> bool" where
  "no_inherited_modality store ls \<longleftrightarrow>
     (\<forall>r\<in>set ls. \<forall>info. store (dataID r) = Some info \<longrightarrow>
        Modality info \<notin> set Object_prototype_keys)"

section \<open>Choosing the base image\<close>

text \<open>
  \<^verbatim>\<open>name.split('.')\<close> on strings: the pieces between the separators, so a string
  with n separators has n + 1 pieces and the empty string has the one piece
  \<^verbatim>\<open>''\<close>.
\<close>

fun str_split :: "char \<Rightarrow> string \<Rightarrow> string list" where
  "str_split sep [] = [[]]"
| "str_split sep (c # cs) =
     (if c = sep then [] # str_split sep cs
      else (case str_split sep cs of
              [] \<Rightarrow> [[c]]
            | piece # pieces \<Rightarrow> (c # piece) # pieces))"

text \<open>\<^verbatim>\<open>isSegmentation\<close>, lines 69 to 73; \<^verbatim>\<open>slice(1)\<close> is \<open>drop 1\<close>.\<close>

definition isSegmentation :: "string \<Rightarrow> string \<Rightarrow> bool" where
  "isSegmentation extension nm =
     (if extension = [] then False
      else (let extensions = drop 1 (str_split (CHR ''.'') nm) in
            extension \<in> set extensions))"

text \<open>
  \<^verbatim>\<open>findBaseImage\<close>, lines 76 to 90. \<^verbatim>\<open>getDataSourceName\<close> is imported from
  \<^verbatim>\<open>io/import/dataSource\<close> and is a parameter here: it takes a
  \<^verbatim>\<open>Maybe<DataSource>\<close> and gives a \<^verbatim>\<open>Maybe<string>\<close>. The test \<^verbatim>\<open>!name\<close>
  is true for a missing name and for the empty string.
\<close>

definition findBaseImage ::
  "(DataSource option \<Rightarrow> string option) \<Rightarrow> ImportResult list \<Rightarrow> string \<Rightarrow> ImportResult option"
where
  "findBaseImage getDataSourceName loadableDataSources segmentGroupExtension =
     (let baseImages =
        filter (\<lambda>importResult.
            case getDataSourceName (Some (dataSource importResult)) of
              None \<Rightarrow> False
            | Some nm \<Rightarrow>
                if nm = [] then False else \<not> isSegmentation segmentGroupExtension nm)
          (filter (\<lambda>r. dataType r = image) loadableDataSources)
      in case baseImages of [] \<Rightarrow> None | r # _ \<Rightarrow> Some r)"

section \<open>Pipeline results\<close>

text \<open>
  Modelled from the spec: the result types of \<^verbatim>\<open>core/pipeline\<close>, which is not
  among the sources. One error record of a failed branch is
  \<^verbatim>\<open>{ cause, message, inputDataStackTrace }\<close>; the cause is an arbitrary thrown
  value and is kept as its text. The outcome for one top-level input is a
  success with the originating data source and the import results it
  produced, or a failure with its error records.
\<close>

record PipelineError =
  cause :: string
  message :: string
  inputDataStackTrace :: "DataSource list"

datatype PipelineResult =
  Success DataSource "ImportResult list"
| Failure "PipelineError list"

text \<open>The \<^verbatim>\<open>ok\<close> flag of a result.\<close>

fun ok :: "PipelineResult \<Rightarrow> bool" where
  "ok (Success _ _) = True"
| "ok (Failure _) = False"

text \<open>
  Modelled from the spec: \<^verbatim>\<open>partitionResults\<close> of \<^verbatim>\<open>core/pipeline\<close>, which is not
  among the sources. The spec gives the contract
  \<^verbatim>\<open>partitionResults(results) -> [succeeded, errored]\<close>, a pure function that
  classifies each result as succeeded or errored; here each result is put,
  from left to right, on the list of its own kind.
\<close>

fun partitionResults :: "PipelineResult list \<Rightarrow> PipelineResult list \<times> PipelineResult list" where
  "partitionResults [] = ([], [])"
| "partitionResults (r # rs) =
     (case partitionResults rs of
        (succeeded, errored) \<Rightarrow>
          (case r of
             Success _ _ \<Rightarrow> (r # succeeded, errored)
           | Failure _ \<Rightarrow> (succeeded, r # errored)))"

text \<open>\<^verbatim>\<open>result.data\<close> of a succeeded result and \<^verbatim>\<open>errResult.errors\<close> of an errored one.\<close>

fun data_of :: "PipelineResult \<Rightarrow> ImportResult list" where
  "data_of (Success _ d) = d"
| "data_of (Failure _) = []"

fun errors_of :: "PipelineResult \<Rightarrow> PipelineError list" where
  "errors_of (Failure es) = es"
| "errors_of (Success _ _) = []"

section \<open>The primary selection\<close>

text \<open>
  The functions \<^verbatim>\<open>loadUserFiles.ts\<close> imports from modules that are not among
  the sources, as parameters: the batch import (its promise settles with a
  thrown error or with the results), the two type guards of
  \<^verbatim>\<open>io/import/common\<close>, \<^verbatim>\<open>toDataSelection\<close>, \<^verbatim>\<open>getDataSourceName\<close> and the
  volume information of the DICOM store. The second type guard and
  \<^verbatim>\<open>toDataSelection\<close> are applied to what \<^verbatim>\<open>findBaseDataSource\<close> returns, which
  may be \<^verbatim>\<open>undefined\<close>.
\<close>

datatype JSError = Error string | TypeError string

record 'sel Imports =
  importDataSources :: "DataSource list \<Rightarrow> JSError + PipelineResult list"
  isLoadableResult :: "ImportResult \<Rightarrow> bool"
  isVolumeResult :: "ImportResult option \<Rightarrow> bool"
  toDataSelection :: "ImportResult option \<Rightarrow> 'sel"
  getDataSourceName :: "DataSource option \<Rightarrow> string option"
  dicomVolumeInfo :: DICOMStore

text \<open>\<^verbatim>\<open>filterLoadableDataSources\<close>, lines 93 to 99: a \<^verbatim>\<open>flatMap\<close>.\<close>

definition filterLoadableDataSources ::
  "(ImportResult \<Rightarrow> bool) \<Rightarrow> PipelineResult list \<Rightarrow> ImportResult list" where
  "filterLoadableDataSources isLoadable succeeded =
     concat (map (\<lambda>result. filter isLoadable (data_of result)) succeeded)"

text \<open>
  \<^verbatim>\<open>findBaseDataSource\<close>, lines 101 to 112. \<^verbatim>\<open>loadableDataSources[0]\<close> of an
  empty array is \<^verbatim>\<open>undefined\<close>.
\<close>

definition findBaseDataSource ::
  "'sel Imports \<Rightarrow> PipelineResult list \<Rightarrow> string \<Rightarrow> ImportResult option" where
  "findBaseDataSource env succeeded segmentGroupExtension =
     (let loadableDataSources = filterLoadableDataSources (isLoadableResult env) succeeded in
      case findBaseDicom (dicomVolumeInfo env) loadableDataSources of
        Some baseDicom \<Rightarrow> Some baseDicom
      | None \<Rightarrow>
          (case findBaseImage (getDataSourceName env) loadableDataSources
                  segmentGroupExtension of
             Some baseImage \<Rightarrow> Some baseImage
           | None \<Rightarrow>
               (case loadableDataSources of [] \<Rightarrow> None | r # _ \<Rightarrow> Some r)))"

section \<open>Loading a batch\<close>

text \<open>
  What \<^verbatim>\<open>loadDataSources\<close> does to the outside is a sequence of calls into its
  collaborators: the loading store (\<^verbatim>\<open>startLoading\<close>, \<^verbatim>\<open>stopLoading\<close>,
  \<^verbatim>\<open>setError\<close>), the batch import, the dataset store
  (\<^verbatim>\<open>setPrimarySelection\<close>) and the logger.
\<close>

datatype 'sel Call =
  StartLoading
| StopLoading
| ImportDataSources "DataSource list"
| SetError JSError
| SetPrimarySelection 'sel
| LogError string

text \<open>The calls of \<^verbatim>\<open>setError\<close> among the calls of a run.\<close>

fun isSetError :: "'sel Call \<Rightarrow> bool" where
  "isSetError (SetError _) = True"
| "isSetError _ = False"

text \<open>
  Modelled from the spec: the dataset store and the loading store are not
  among the sources. The state that \<^verbatim>\<open>load\<close> reads of them is
  \<^verbatim>\<open>dataStore.primarySelection\<close>, absent (\<open>None\<close>) until \<^verbatim>\<open>setPrimarySelection\<close>
  sets it, and \<^verbatim>\<open>loadDataStore.segmentGroupExtension\<close>.
\<close>

record 'sel Stores =
  primarySelection :: "'sel option"
  segmentGroupExtension :: string

text \<open>
  One run of an asynchronous function: how its promise settles (\<open>Inl\<close> a
  thrown error), the calls it made, in order, and the stores afterwards.
\<close>

record 'sel Run =
  outcome :: "JSError + unit"
  calls :: "'sel Call list"
  stores :: "'sel Stores"

text \<open>\<^verbatim>\<open>Array.prototype.join\<close>.\<close>

fun join :: "string \<Rightarrow> string list \<Rightarrow> string" where
  "join sep [] = []"
| "join sep [x] = x"
| "join sep (x # y # ys) = x @ sep @ join sep (y # ys)"

definition newline :: string where
  "newline = [CHR 0x0A]"

text \<open>
  A \<^verbatim>\<open>Maybe<string>\<close> inside a template literal: a missing name (\<^verbatim>\<open>null\<close>) is
  written out as the text \<^verbatim>\<open>null\<close>.
\<close>

definition template_text :: "string option \<Rightarrow> string" where
  "template_text nm = (case nm of None \<Rightarrow> ''null'' | Some n \<Rightarrow> n)"

text \<open>\<^verbatim>\<open>inputDataStackTrace[0]\<close>, \<^verbatim>\<open>undefined\<close> for an empty trace.\<close>

definition innermost :: "PipelineError \<Rightarrow> DataSource option" where
  "innermost e = (case inputDataStackTrace e of [] \<Rightarrow> None | d # _ \<Rightarrow> Some d)"

text \<open>The line the \<^verbatim>\<open>map\<close> callback returns for an errored result, line 155.\<close>

definition errorLine :: "(DataSource option \<Rightarrow> string option) \<Rightarrow> PipelineError \<Rightarrow> string" where
  "errorLine getName firstError =
     ''- '' @ template_text (getName (innermost firstError)) @ '': '' @ message firstError"

text \<open>
  \<^verbatim>\<open>errored.map(...)\<close>, lines 148 to 156: the lines, and the causes handed to
  \<^verbatim>\<open>logError\<close> on the way. A result with an empty \<^verbatim>\<open>errors\<close> array has
  \<^verbatim>\<open>firstError\<close> undefined, and reading \<^verbatim>\<open>firstError.inputDataStackTrace\<close>
  throws a \<^verbatim>\<open>TypeError\<close> that ends the \<^verbatim>\<open>map\<close>.
\<close>

fun errorMessages ::
  "(DataSource option \<Rightarrow> string option) \<Rightarrow> PipelineResult list \<Rightarrow>
     (JSError + string list) \<times> string list" where
  "errorMessages getName [] = (Inr [], [])"
| "errorMessages getName (errResult # rest) =
     (case errors_of errResult of
        [] \<Rightarrow> (Inl (TypeError ''firstError is undefined''), [])
      | firstError # _ \<Rightarrow>
          (case errorMessages getName rest of
             (Inl e, logged) \<Rightarrow> (Inl e, cause firstError # logged)
           | (Inr lines, logged) \<Rightarrow>
               (Inr (errorLine getName firstError # lines), cause firstError # logged)))"

text \<open>
  Lines 129 to 145: the calls made for the primary selection and the stores
  afterwards.
\<close>

definition selectPrimary ::
  "'sel Imports \<Rightarrow> PipelineResult list \<Rightarrow> 'sel Stores \<Rightarrow> 'sel Call list \<times> 'sel Stores" where
  "selectPrimary env succeeded st =
     (if primarySelection st = None \<and> succeeded \<noteq> [] then
        (let primaryDataSource =
               findBaseDataSource env succeeded (segmentGroupExtension st)
         in if isVolumeResult env primaryDataSource then
              (let selection = toDataSelection env primaryDataSource in
               ([SetPrimarySelection selection], st\<lparr>primarySelection := Some selection\<rparr>))
            else ([], st))
      else ([], st))"

text \<open>The message of the aggregate error, lines 157 to 159.\<close>

definition failedMessage :: "string list \<Rightarrow> string" where
  "failedMessage errorMessages' =
     ''These files failed to load:'' @ newline @ join newline errorMessages'"

text \<open>The inner function \<^verbatim>\<open>load\<close>, lines 115 to 163.\<close>

definition load :: "'sel Imports \<Rightarrow> DataSource list \<Rightarrow> 'sel Stores \<Rightarrow> 'sel Run" where
  "load env sources st =
     (case importDataSources env sources of
        Inl error \<Rightarrow>
          \<lparr>outcome = Inr (), calls = [ImportDataSources sources, SetError error], stores = st\<rparr>
      | Inr results \<Rightarrow>
          (case partitionResults results of
             (succeeded, errored) \<Rightarrow>
               (case selectPrimary env succeeded st of
                  (selected, st') \<Rightarrow>
                    if errored \<noteq> [] then
                      (case errorMessages (getDataSourceName env) errored of
                         (Inl e, logged) \<Rightarrow>
                           \<lparr>outcome = Inl e,
                            calls = ImportDataSources sources # selected @ map LogError logged,
                            stores = st'\<rparr>
                       | (Inr lines, logged) \<Rightarrow>
                           \<lparr>outcome = Inr (),
                            calls = ImportDataSources sources # selected @ map LogError logged
                                      @ [SetError (Error (failedMessage lines))],
                            stores = st'\<rparr>)
                    else
                      \<lparr>outcome = Inr (), calls = ImportDataSources sources # selected,
                       stores = st'\<rparr>)))"

text \<open>
  \<^verbatim>\<open>wrapWithLoading\<close>, lines 165 to 175: \<^verbatim>\<open>try { startLoading(); await fn() }
  finally { stopLoading() }\<close>. The \<^verbatim>\<open>finally\<close> block runs however \<^verbatim>\<open>fn\<close>
  settles, and the wrapper then settles the same way.
\<close>

definition wrapWithLoading :: "('sel Stores \<Rightarrow> 'sel Run) \<Rightarrow> 'sel Stores \<Rightarrow> 'sel Run" where
  "wrapWithLoading fn st =
     (let r = fn st in
      \<lparr>outcome = outcome r, calls = StartLoading # calls r @ [StopLoading], stores = stores r\<rparr>)"

definition loadDataSources :: "'sel Imports \<Rightarrow> DataSource list \<Rightarrow> 'sel Stores \<Rightarrow> 'sel Run" where
  "loadDataSources env sources st = wrapWithLoading (load env sources) st"

text \<open>\<^verbatim>\<open>loadFiles\<close>; \<^verbatim>\<open>fileToDataSource\<close> is imported and a parameter.\<close>

definition loadFiles ::
  "'sel Imports \<Rightarrow> (File \<Rightarrow> DataSource) \<Rightarrow> File list \<Rightarrow> 'sel Stores \<Rightarrow> 'sel Run" where
  "loadFiles env fileToDataSource files st =
     (let dataSources = map fileToDataSource files in loadDataSources env dataSources st)"

section \<open>Extracting the files of a zip archive\<close>

text \<open>
  A loaded \<^verbatim>\<open>JSZip\<close> archive is the list of its entries in the order in which
  \<^verbatim>\<open>zip.forEach\<close> visits them. Of an entry the code reads its \<^verbatim>\<open>name\<close> (the
  full path inside the archive), its \<^verbatim>\<open>dir\<close> flag and, through
  \<^verbatim>\<open>async('blob')\<close>, its content, which the library may fail to read.
\<close>

record ZipObject =
  entryName :: string
  dir :: bool
  async_blob :: "JSError + Blob"

type_synonym JSZip = "ZipObject list"

text \<open>
  \<^verbatim>\<open>zip.file(name)\<close>: the entry stored under that name, unless there is none
  or it is a directory.
\<close>

definition zip_file :: "JSZip \<Rightarrow> string \<Rightarrow> ZipObject option" where
  "zip_file archive nm =
     (case find (\<lambda>obj. entryName obj = nm) archive of
        None \<Rightarrow> None
      | Some obj \<Rightarrow> if dir obj then None else Some obj)"

text \<open>
  Modelled from the spec: \<^verbatim>\<open>basename\<close> and \<^verbatim>\<open>dirname\<close> of \<^verbatim>\<open>utils/path\<close>, which
  is not among the sources. The spec has the name of a child as the basename
  within the archive and its archive path as the directory path within the
  archive, the empty string for an entry at the root: the text after the last
  slash, and the text before it.
\<close>

definition basename :: "string \<Rightarrow> string" where
  "basename path = rev (takeWhile (\<lambda>c. c \<noteq> CHR ''/'') (rev path))"

definition dirname :: "string \<Rightarrow> string" where
  "dirname path = rev (drop 1 (dropWhile (\<lambda>c. c \<noteq> CHR ''/'') (rev path)))"

text \<open>One element of the array \<^verbatim>\<open>extractFilesFromZip\<close> resolves to.\<close>

record ExtractedFile =
  zfile :: File
  archivePath :: "string option"

text \<open>
  The promise the callback pushes for a file entry,
  \<^verbatim>\<open>fileEntry.async('blob').then((blob) => new File([blob], fileName))\<close>,
  modelled by what it settles to.
\<close>

definition promise_of :: "string \<Rightarrow> ZipObject \<Rightarrow> JSError + File" where
  "promise_of fileName fileEntry =
     (case async_blob fileEntry of
        Inl e \<Rightarrow> Inl e
      | Inr blob \<Rightarrow> Inr \<lparr>name = fileName, bits = blob\<rparr>)"

text \<open>
  The callback of \<^verbatim>\<open>zip.forEach\<close>, lines 8 to 20, on the two arrays
  \<^verbatim>\<open>promises\<close> and \<^verbatim>\<open>paths\<close>.
\<close>

definition forEach_callback ::
  "JSZip \<Rightarrow> (JSError + File) list \<times> string list \<Rightarrow> ZipObject \<Rightarrow>
     (JSError + File) list \<times> string list" where
  "forEach_callback archive acc zobj =
     (case acc of
        (promises, paths) \<Rightarrow>
          if \<not> dir zobj then
            (let fileName = basename (entryName zobj);
                 path = dirname (entryName zobj)
             in case zip_file archive (entryName zobj) of
                  Some fileEntry \<Rightarrow>
                    (promises @ [promise_of fileName fileEntry], paths @ [path])
                | None \<Rightarrow> (promises, paths))
          else (promises, paths))"

text \<open>
  \<^verbatim>\<open>Promise.all\<close>: the values in the order of the promises, or a rejection when
  one of them rejects (the first one in the list is taken).
\<close>

fun Promise_all :: "(JSError + 'a) list \<Rightarrow> JSError + 'a list" where
  "Promise_all [] = Inr []"
| "Promise_all (Inl e # ps) = Inl e"
| "Promise_all (Inr v # ps) = (case Promise_all ps of Inl e \<Rightarrow> Inl e | Inr vs \<Rightarrow> Inr (v # vs))"

text \<open>\<^verbatim>\<open>paths[index]\<close>, \<^verbatim>\<open>undefined\<close> beyond the end of the array.\<close>

definition at_index :: "'a list \<Rightarrow> nat \<Rightarrow> 'a option" where
  "at_index xs i = (if i < length xs then Some (xs ! i) else None)"

text \<open>
  \<^verbatim>\<open>extractFilesFromZip\<close>; \<^verbatim>\<open>JSZip.loadAsync\<close> is a parameter that either
  rejects or gives the archive.
\<close>

definition extractFilesFromZip ::
  "(File \<Rightarrow> JSError + JSZip) \<Rightarrow> File \<Rightarrow> JSError + ExtractedFile list" where
  "extractFilesFromZip loadAsync zipFile =
     (case loadAsync zipFile of
        Inl e \<Rightarrow> Inl e
      | Inr archive \<Rightarrow>
          (case foldl (forEach_callback archive) ([], []) archive of
             (promises, paths) \<Rightarrow>
               (case Promise_all promises of
                  Inl e \<Rightarrow> Inl e
                | Inr files \<Rightarrow>
                    Inr (map (\<lambda>(index, f). \<lparr>zfile = f, archivePath = at_index paths index\<rparr>)
                           (enumerate 0 files)))))"

section \<open>Importing a single file\<close>

text \<open>
  What a reader of \<^verbatim>\<open>FILE_READERS\<close> returns is a vtk object, of which the
  handler asks \<^verbatim>\<open>isA(className)\<close>: the object is an instance of the class or
  of a subclass.
\<close>

record DataObject =
  classHierarchy :: "string list"

definition isA :: "DataObject \<Rightarrow> string \<Rightarrow> bool" where
  "isA dataObject className \<longleftrightarrow> className \<in> set (classHierarchy dataObject)"

text \<open>
  The collaborators of the handler, over a state \<open>'st\<close> of the stores: the
  reader registry, \<^verbatim>\<open>useImageStore().addVTKImageData(name, image)\<close>, which
  returns the new data ID, and \<^verbatim>\<open>fileStore.add(dataID, sources)\<close>.
\<close>

record 'st ImportEnv =
  FILE_READERS :: "string \<rightharpoonup> (File \<Rightarrow> JSError + DataObject)"
  addVTKImageData :: "string \<Rightarrow> DataObject \<Rightarrow> 'st \<Rightarrow> string \<times> 'st"
  fileStore_add :: "string \<Rightarrow> DataSource list \<Rightarrow> 'st \<Rightarrow> 'st"

text \<open>
  How an import handler ends: it returns a data source for the next handler,
  it returns \<^verbatim>\<open>done(result)\<close>, or it throws.
\<close>

datatype HandlerResult = Return DataSource | Done ImportResult | Throw JSError

text \<open>\<^verbatim>\<open>importSingleFile\<close>; a reader that rejects makes the \<^verbatim>\<open>await\<close> throw.\<close>

definition importSingleFile :: "'st ImportEnv \<Rightarrow> DataSource \<Rightarrow> 'st \<Rightarrow> HandlerResult \<times> 'st" where
  "importSingleFile env ds st =
     (case fileSrc ds of
        None \<Rightarrow> (Return ds, st)
      | Some fsrc \<Rightarrow>
          (case FILE_READERS env (fileType fsrc) of
             None \<Rightarrow> (Return ds, st)
           | Some reader \<Rightarrow>
               (case reader (srcFile fsrc) of
                  Inl e \<Rightarrow> (Throw e, st)
                | Inr dataObject \<Rightarrow>
                    if isA dataObject ''vtkImageData'' then
                      (case addVTKImageData env (name (srcFile fsrc)) dataObject st of
                         (dataID', st') \<Rightarrow>
                           (Done \<lparr>dataID = dataID', dataSource = ds, dataType = image\<rparr>,
                            fileStore_add env dataID' [ds] st'))
                    else
                      (Throw (Error ''Data reader did not produce a valid dataset''), st))))"


section \<open>Example inputs\<close>

text \<open>
  Concrete data for the examples below: data sources that carry a file of a
  given name, import results, a \<^verbatim>\<open>getDataSourceName\<close> that reads the name of
  the file, the volume information of eight DICOM series, and the imported
  collaborators of \<^verbatim>\<open>loadUserFiles.ts\<close> around a batch import that settles
  with given results.
\<close>

definition ex_source :: "string \<Rightarrow> DataSource" where
  "ex_source nm =
     DataSource (Some \<lparr>fileType = ''nii'', srcFile = \<lparr>name = nm, bits = []\<rparr>\<rparr>) None None"

definition ex_result :: "string \<Rightarrow> string \<Rightarrow> DataType \<Rightarrow> ImportResult" where
  "ex_result ident nm kind = \<lparr>dataID = ident, dataSource = ex_source nm, dataType = kind\<rparr>"

definition ex_getDataSourceName :: "DataSource option \<Rightarrow> string option" where
  "ex_getDataSourceName ds =
     (case ds of
        None \<Rightarrow> None
      | Some d \<Rightarrow> (case fileSrc d of None \<Rightarrow> None | Some f \<Rightarrow> Some (name (srcFile f))))"

definition ex_volumeInfo :: DICOMStore where
  "ex_volumeInfo =
     [''dx'' \<mapsto> \<lparr>Modality = ''DX'', NumberOfSlices = Some 5\<rparr>,
      ''us'' \<mapsto> \<lparr>Modality = ''US'', NumberOfSlices = Some 1\<rparr>,
      ''ct'' \<mapsto> \<lparr>Modality = ''CT'', NumberOfSlices = Some 10\<rparr>,
      ''mr'' \<mapsto> \<lparr>Modality = ''MR'', NumberOfSlices = Some 20\<rparr>,
      ''mr0'' \<mapsto> \<lparr>Modality = ''MR'', NumberOfSlices = None\<rparr>,
      ''ct0'' \<mapsto> \<lparr>Modality = ''CT'', NumberOfSlices = Some 0\<rparr>,
      ''ct20'' \<mapsto> \<lparr>Modality = ''CT'', NumberOfSlices = Some 20\<rparr>,
      ''ct30'' \<mapsto> \<lparr>Modality = ''CT'', NumberOfSlices = Some 30\<rparr>]"


definition ex_env :: "PipelineResult list \<Rightarrow> string Imports" where
  "ex_env results =
     \<lparr>importDataSources = (\<lambda>sources. Inr results),
      isLoadableResult = (\<lambda>r. dataType r = image \<or> dataType r = dicom),
      isVolumeResult =
        (\<lambda>r. case r of None \<Rightarrow> False | Some v \<Rightarrow> dataType v = image \<or> dataType v = dicom),
      toDataSelection = (\<lambda>r. case r of None \<Rightarrow> [] | Some v \<Rightarrow> dataID v),
      getDataSourceName = ex_getDataSourceName,
      dicomVolumeInfo = ex_volumeInfo\<rparr>"

text \<open>
  A batch of three inputs: a file that loads, an archive in which a nested
  file fails, and a file that fails.
\<close>

definition ex_sources :: "DataSource list" where
  "ex_sources = [ex_source ''a.nii'', ex_source ''outer.zip'', ex_source ''b.nii'']"

definition ex_batch :: "PipelineResult list" where
  "ex_batch =
     [Success (ex_source ''a.nii'') [ex_result ''i1'' ''a.nii'' image],
      Failure [\<lparr>cause = ''c1'', message = ''boom'',
                inputDataStackTrace = [ex_source ''inner.nii'', ex_source ''outer.zip'']\<rparr>,
               \<lparr>cause = ''c1b'', message = ''later'',
                inputDataStackTrace = [ex_source ''outer.zip'']\<rparr>],
      Failure [\<lparr>cause = ''c2'', message = ''bad'',
                inputDataStackTrace = [ex_source ''b.nii'']\<rparr>]]"

definition ex_stores :: "string option \<Rightarrow> string Stores" where
  "ex_stores selection = \<lparr>primarySelection = selection, segmentGroupExtension = ''seg''\<rparr>"

text \<open>An archive with a directory entry, a nested file and a file at the root.\<close>

definition ex_archive :: JSZip where
  "ex_archive =
     [\<lparr>entryName = ''a/'', dir = True, async_blob = Inr []\<rparr>,
      \<lparr>entryName = ''a/b/c.txt'', dir = False, async_blob = Inr [1, 2]\<rparr>,
      \<lparr>entryName = ''d.txt'', dir = False, async_blob = Inr [3]\<rparr>]"

text \<open>
  Stores for the single-file handler: the state is the content of the file
  store; the image store names the data after the file. The readers give an
  image for \<^verbatim>\<open>nii\<close>, a mesh for \<^verbatim>\<open>vtp\<close> and fail for \<^verbatim>\<open>raw\<close>.
\<close>

definition ex_importEnv :: "(string \<times> DataSource list) list ImportEnv" where
  "ex_importEnv =
     \<lparr>FILE_READERS =
        [''nii'' \<mapsto> (\<lambda>f. Inr \<lparr>classHierarchy = [''vtkObject'', ''vtkDataSet'', ''vtkImageData'']\<rparr>),
         ''vtp'' \<mapsto> (\<lambda>f. Inr \<lparr>classHierarchy = [''vtkObject'', ''vtkDataSet'', ''vtkPolyData'']\<rparr>),
         ''raw'' \<mapsto> (\<lambda>f. Inl (Error ''cannot read''))],
      addVTKImageData = (\<lambda>nm dataObject st. (''image:'' @ nm, st)),
      fileStore_add = (\<lambda>ident sources st. (ident, sources) # st)\<rparr>"

definition ex_file_source :: "string \<Rightarrow> string \<Rightarrow> DataSource" where
  "ex_file_source kind nm =
     DataSource (Some \<lparr>fileType = kind, srcFile = \<lparr>name = nm, bits = []\<rparr>\<rparr>) None None"

section \<open>The sort\<close>

lemma mset_insert_sorted: "mset (insert_sorted cmp e xs) = add_mset e (mset xs)"
  by (induction xs) auto

lemma set_insert_sorted: "set (insert_sorted cmp e xs) = insert e (set xs)"
  by (induction xs) auto

lemma mset_foldl_insert_sorted:
  "mset (foldl (\<lambda>acc e. insert_sorted cmp e acc) acc xs) = mset acc + mset xs"
  by (induction xs arbitrary: acc) (auto simp: mset_insert_sorted)

text \<open>The sort permutes its input.\<close>

lemma mset_Array_sort: "mset (Array_sort cmp xs) = mset xs"
  by (simp add: Array_sort_def mset_foldl_insert_sorted)

lemma set_Array_sort: "set (Array_sort cmp xs) = set xs"
  using mset_Array_sort [of cmp xs] by (metis set_mset_mset)

lemma sorted_insert_sorted:
  assumes "strict_on cmp S" and "insert e (set xs) \<subseteq> S"
    and "sorted_wrt (\<lambda>a b. \<not> sorts_before cmp b a) xs"
  shows "sorted_wrt (\<lambda>a b. \<not> sorts_before cmp b a) (insert_sorted cmp e xs)"
  using assms(2,3)
proof (induction xs)
  case Nil
  then show ?case by simp
next
  case (Cons x xs)
  show ?case
  proof (cases "sorts_before cmp e x")
    case True
    have "\<not> sorts_before cmp y e" if y: "y \<in> set (x # xs)" for y
    proof
      assume ye: "sorts_before cmp y e"
      have mem: "y \<in> S" "e \<in> S" "x \<in> S"
        using Cons.prems(1) y by auto
      from assms(1) mem ye True have yx: "sorts_before cmp y x"
        unfolding strict_on_def by blast
      show False
      proof (cases "y = x")
        case True
        with yx assms(1) mem show False unfolding strict_on_def by blast
      next
        case False
        with y have "y \<in> set xs" by simp
        with Cons.prems(2) yx show False by simp
      qed
    qed
    with True Cons.prems show ?thesis by (simp add: sorts_before_def)
  next
    case False
    then show ?thesis using Cons by (auto simp: sorts_before_def set_insert_sorted)
  qed
qed

lemma sorted_foldl_insert_sorted:
  assumes "strict_on cmp S"
  shows "set acc \<union> set xs \<subseteq> S \<Longrightarrow> sorted_wrt (\<lambda>a b. \<not> sorts_before cmp b a) acc \<Longrightarrow>
    sorted_wrt (\<lambda>a b. \<not> sorts_before cmp b a) (foldl (\<lambda>acc e. insert_sorted cmp e acc) acc xs)"
proof (induction xs arbitrary: acc)
  case Nil
  then show ?case by simp
next
  case (Cons x xs)
  have "sorted_wrt (\<lambda>a b. \<not> sorts_before cmp b a) (insert_sorted cmp x acc)"
    using sorted_insert_sorted [OF assms _ Cons.prems(2), of x] Cons.prems(1) by simp
  moreover have "set (insert_sorted cmp x acc) \<union> set xs \<subseteq> S"
    using Cons.prems(1) by (simp add: set_insert_sorted)
  ultimately show ?case using Cons.IH by simp
qed

text \<open>
  The sort orders its input: no element of the result sorts before an earlier
  one.
\<close>

lemma sorted_Array_sort:
  "strict_on cmp S \<Longrightarrow> set xs \<subseteq> S \<Longrightarrow>
   sorted_wrt (\<lambda>a b. \<not> sorts_before cmp b a) (Array_sort cmp xs)"
  unfolding Array_sort_def using sorted_foldl_insert_sorted [of cmp S "[]" xs] by simp

section \<open>The base DICOM volume\<close>

text \<open>
  Between two candidates with priorities from the table, the comparator puts
  first the one with the lower priority and, at equal priority, the one
  with more slices, a missing count counting as none.
\<close>

lemma sorts_before_compareFn:
  "priority A = Some a \<Longrightarrow> priority B = Some b \<Longrightarrow>
   sorts_before compareFn A B \<longleftrightarrow>
     a < b \<or> (a = b \<and> slices (volumeInfo B) < slices (volumeInfo A))"
  by (auto simp: sorts_before_def SortCompare_def compareFn_def minus_js_def noSlices_def
      slices_def Let_def split: option.splits)

text \<open>
  A candidate without a priority compares as \<^verbatim>\<open>NaN\<close> with every candidate and
  so sorts before none and after none.
\<close>

lemma sorts_before_compareFn_iff:
  "sorts_before compareFn A B \<longleftrightarrow>
     (\<exists>a b. priority A = Some a \<and> priority B = Some b \<and>
            (a < b \<or> (a = b \<and> slices (volumeInfo B) < slices (volumeInfo A))))"
proof (cases "priority A")
  case None
  then show ?thesis
    by (simp add: sorts_before_def SortCompare_def compareFn_def minus_js_def Let_def)
next
  case (Some a)
  note A = this
  show ?thesis
  proof (cases "priority B")
    case None
    with A show ?thesis
      by (simp add: sorts_before_def SortCompare_def compareFn_def minus_js_def Let_def)
  next
    case (Some b)
    with A show ?thesis by (simp add: sorts_before_compareFn)
  qed
qed

lemma strict_on_compareFn: "strict_on compareFn UNIV"
  unfolding strict_on_def by (auto simp: sorts_before_compareFn_iff)

lemma noSlices_slices: "noSlices info \<longleftrightarrow> slices info = 0"
  by (simp add: noSlices_def slices_def split: option.splits)

lemma set_nonNullable: "set (nonNullable xs) = {x. Some x \<in> set xs}"
  by (induction xs rule: nonNullable.induct) auto

lemma set_baseDicomVolumes:
  "set (baseDicomVolumes store ls) =
     {c. \<exists>r\<in>set ls. dataType r = dicom \<and> toCandidate store r = Some c}"
  by (force simp: baseDicomVolumes_def set_Array_sort set_nonNullable image_iff)

lemma toCandidate_Some:
  "toCandidate store r = Some c \<Longrightarrow>
     dicomSource c = r \<and> store (dataID r) = Some (volumeInfo c) \<and>
     in_BASE_MODALITY_TYPES (Modality (volumeInfo c)) \<and>
     priority c = priority_of (Modality (volumeInfo c))"
  by (auto simp: toCandidate_def split: option.splits if_splits)


lemma priority_defined:
  assumes "no_inherited_modality store ls" and "c \<in> set (baseDicomVolumes store ls)"
  shows "priority c \<noteq> None"
proof -
  from assms(2) obtain r where r: "r \<in> set ls" "toCandidate store r = Some c"
    by (auto simp: set_baseDicomVolumes)
  from toCandidate_Some [OF r(2)] assms(1) r(1) show ?thesis
    unfolding no_inherited_modality_def in_BASE_MODALITY_TYPES_def priority_of_def
    by (auto simp: map_of_eq_None_iff)
qed

text \<open>The sorted list of candidates is ordered, whatever the batch.\<close>

lemma sorted_baseDicomVolumes:
  "sorted_wrt (\<lambda>a b. \<not> sorts_before compareFn b a) (baseDicomVolumes store ls)"
  using sorted_Array_sort [OF strict_on_compareFn]
  by (simp add: baseDicomVolumes_def)

text \<open>
  What \<^verbatim>\<open>findBaseDicom\<close> returns in general: the source of a candidate whose
  priority is the lowest of all candidates. The sort is ascending in the
  priority and the function takes element 0.
\<close>

lemma findBaseDicom_lowest_priority:
  assumes known: "no_inherited_modality store ls"
    and res: "findBaseDicom store ls = Some r"
  shows "\<exists>c a. c \<in> set (baseDicomVolumes store ls) \<and> dicomSource c = r \<and>
           priority c = Some a \<and>
           (\<forall>y\<in>set (baseDicomVolumes store ls). \<forall>b. priority y = Some b \<longrightarrow> a \<le> b)"
proof -
  let ?L = "baseDicomVolumes store ls"
  from res obtain h t where ht: "?L = h # t" "dicomSource h = r"
    by (auto simp: findBaseDicom_def split: list.splits)
  then have h: "h \<in> set ?L" by simp
  then obtain a where a: "priority h = Some a"
    using priority_defined [OF known] by blast
  have srt: "sorted_wrt (\<lambda>a b. \<not> sorts_before compareFn b a) (h # t)"
    using sorted_baseDicomVolumes [of store ls] ht(1) by simp
  have "a \<le> b" if y: "y \<in> set ?L" and b: "priority y = Some b" for y b
  proof (cases "y = h")
    case True
    with a b show ?thesis by simp
  next
    case False
    with y ht(1) have "y \<in> set t" by simp
    with srt have "\<not> sorts_before compareFn y h" by simp
    with a b show ?thesis by (simp add: sorts_before_compareFn)
  qed
  with h ht(2) a show ?thesis by blast
qed

text \<open>
  C1. The claim: of loadable DICOM results whose modalities are in the
  priority table, \<^verbatim>\<open>findBaseDicom\<close> returns the one with the highest
  priority, so that of a DX result (priority 1) and a US result (priority 2)
  the US result is chosen. The code does the opposite, against its own
  comment that the higher priority is preferred: the comparator returns
  \<open>a - b\<close>, which sorts the lower priority to the front, and element 0 is
  returned. With a DX series and a US series of one slice, in either order,
  the DX result is returned.
\<close>

theorem findBaseDicom_DX_US:
  "findBaseDicom ex_volumeInfo
     [ex_result ''dx'' ''chest.dcm'' dicom, ex_result ''us'' ''echo.dcm'' dicom]
     = Some (ex_result ''dx'' ''chest.dcm'' dicom) \<and>
   findBaseDicom ex_volumeInfo
     [ex_result ''us'' ''echo.dcm'' dicom, ex_result ''dx'' ''chest.dcm'' dicom]
     = Some (ex_result ''dx'' ''chest.dcm'' dicom)"
  by code_simp




section \<open>The base image\<close>

text \<open>
  The split is the inverse of joining with the separator, its pieces are
  free of the separator, and there is one more piece than there are
  separators: \<open>str_split\<close> is the \<^verbatim>\<open>split\<close> of strings.
\<close>

lemma str_split_nonempty: "str_split sep s \<noteq> []"
  by (induction s) (auto split: list.splits)

lemma str_split_pieces: "t \<in> set (str_split sep s) \<Longrightarrow> sep \<notin> set t"
  by (induction s arbitrary: t) (auto split: list.splits if_splits)

lemma length_str_split: "length (str_split sep s) = Suc (count_list s sep)"
  by (induction s) (auto split: list.splits)

lemma join_Cons: "ys \<noteq> [] \<Longrightarrow> join sep (x # ys) = x @ sep @ join sep ys"
  by (cases ys) simp_all

lemma join_str_split: "join [sep] (str_split sep s) = s"
proof (induction s)
  case Nil
  show ?case by simp
next
  case (Cons c cs)
  show ?case
  proof (cases "c = sep")
    case True
    then show ?thesis using Cons by (simp add: join_Cons str_split_nonempty)
  next
    case False
    obtain piece pieces where "str_split sep cs = piece # pieces"
      using str_split_nonempty [of sep cs] by (cases "str_split sep cs") auto
    with False Cons show ?thesis by (cases pieces) simp_all
  qed
qed

lemma first_of_filter: "(case filter P xs of [] \<Rightarrow> None | x # _ \<Rightarrow> Some x) = find P xs"
  by (induction xs) auto

text \<open>
  C5, as amended. \<^verbatim>\<open>findBaseImage\<close> returns the first result, in the order of
  the input, that is of kind image and has a non-empty display name that is
  not a segmentation name, and nothing when there is none; a result whose
  display name is missing or empty is passed over. A name is a segmentation
  name exactly when the configured extension is not empty and is one of the
  pieces of the name after the first, the name being split at its dots.
\<close>

theorem findBaseImage_first:
  "findBaseImage getName ls ext =
     find (\<lambda>r. dataType r = image \<and>
                (\<exists>nm. getName (Some (dataSource r)) = Some nm \<and> nm \<noteq> [] \<and>
                       \<not> isSegmentation ext nm)) ls \<and>
   (isSegmentation ext nm \<longleftrightarrow> ext \<noteq> [] \<and> ext \<in> set (tl (str_split (CHR ''.'') nm)))"
proof -
  have "filter (\<lambda>r. case getName (Some (dataSource r)) of
                      None \<Rightarrow> False
                    | Some nm \<Rightarrow> if nm = [] then False else \<not> isSegmentation ext nm)
          (filter (\<lambda>r. dataType r = image) ls) =
        filter (\<lambda>r. dataType r = image \<and>
                (\<exists>nm. getName (Some (dataSource r)) = Some nm \<and> nm \<noteq> [] \<and>
                       \<not> isSegmentation ext nm)) ls"
    by (induction ls) (auto split: option.splits)
  then show ?thesis
    by (simp add: findBaseImage_def Let_def first_of_filter isSegmentation_def drop_Suc)
qed

text \<open>
  The example of the claim: of the images \<^verbatim>\<open>brain.nii\<close> and
  \<^verbatim>\<open>brain.seg.nii\<close> with the extension \<^verbatim>\<open>seg\<close>, in either order,
  \<^verbatim>\<open>brain.nii\<close> is returned; with the empty extension nothing is a
  segmentation and the first image is returned.
\<close>

theorem findBaseImage_first_witness:
  "findBaseImage ex_getDataSourceName
     [ex_result ''i1'' ''brain.nii'' image, ex_result ''i2'' ''brain.seg.nii'' image] ''seg''
     = Some (ex_result ''i1'' ''brain.nii'' image) \<and>
   findBaseImage ex_getDataSourceName
     [ex_result ''i2'' ''brain.seg.nii'' image, ex_result ''i1'' ''brain.nii'' image] ''seg''
     = Some (ex_result ''i1'' ''brain.nii'' image) \<and>
   findBaseImage ex_getDataSourceName
     [ex_result ''i2'' ''brain.seg.nii'' image, ex_result ''i1'' ''brain.nii'' image] []
     = Some (ex_result ''i2'' ''brain.seg.nii'' image) \<and>
   isSegmentation ''seg'' ''brain.seg.nii'' \<and> \<not> isSegmentation ''seg'' ''brain.nii''"
proof -
  let ?a = "ex_result ''i1'' ''brain.nii'' image"
  let ?b = "ex_result ''i2'' ''brain.seg.nii'' image"
  have seg: "isSegmentation ''seg'' ''brain.seg.nii''" "\<not> isSegmentation ''seg'' ''brain.nii''"
    "\<not> isSegmentation [] ''brain.seg.nii''"
    using findBaseImage_first [of ex_getDataSourceName "[]" "''seg''" "''brain.seg.nii''"]
      findBaseImage_first [of ex_getDataSourceName "[]" "''seg''" "''brain.nii''"]
      findBaseImage_first [of ex_getDataSourceName "[]" "[]" "''brain.seg.nii''"]
    by simp_all
  have nm: "ex_getDataSourceName (Some (dataSource ?a)) = Some ''brain.nii''"
    "ex_getDataSourceName (Some (dataSource ?b)) = Some ''brain.seg.nii''"
    "dataType ?a = image" "dataType ?b = image"
    by (simp_all add: ex_getDataSourceName_def ex_result_def ex_source_def)
  show ?thesis
    using findBaseImage_first [of ex_getDataSourceName "[?a, ?b]" "''seg''" "[]"]
      findBaseImage_first [of ex_getDataSourceName "[?b, ?a]" "''seg''" "[]"]
      findBaseImage_first [of ex_getDataSourceName "[?b, ?a]" "[]" "[]"]
      seg nm
    by simp
qed

text \<open>
  The claim as it was written has the first image whose display name is not a
  segmentation name returned. An image with the empty display name is of kind
  image and its name is not a segmentation name, yet the image after it is
  returned.
\<close>

theorem findBaseImage_unnamed_counterexample:
  "dataType (ex_result ''i0'' [] image) = image \<and>
   ex_getDataSourceName (Some (dataSource (ex_result ''i0'' [] image))) = Some [] \<and>
   \<not> isSegmentation ''seg'' [] \<and>
   findBaseImage ex_getDataSourceName
     [ex_result ''i0'' [] image, ex_result ''i1'' ''brain.nii'' image] ''seg''
     = Some (ex_result ''i1'' ''brain.nii'' image) \<and>
   ex_result ''i1'' ''brain.nii'' image \<noteq> ex_result ''i0'' [] image"
  by code_simp

section \<open>Partitioning the results\<close>

lemma partitionResults_filter:
  "partitionResults rs = (filter ok rs, filter (\<lambda>r. \<not> ok r) rs)"
proof (induction rs)
  case Nil
  show ?case by simp
next
  case (Cons r rs)
  then show ?case by (cases r) simp_all
qed

text \<open>
  C2. For a list of N results, the two lists of \<^verbatim>\<open>partitionResults\<close> have N
  elements together; as multisets they add up to the input, so that no result
  is dropped or duplicated; no result is in both; and each list is a
  subsequence of the input, so that the order within it is the order of the
  input.
\<close>

theorem partitionResults_total:
  "length (fst (partitionResults rs)) + length (snd (partitionResults rs)) = length rs \<and>
   mset (fst (partitionResults rs)) + mset (snd (partitionResults rs)) = mset rs \<and>
   set (fst (partitionResults rs)) \<inter> set (snd (partitionResults rs)) = {} \<and>
   subseq (fst (partitionResults rs)) rs \<and> subseq (snd (partitionResults rs)) rs"
proof -
  have "length (filter ok rs) + length (filter (\<lambda>r. \<not> ok r) rs) = length rs"
    by (rule sum_length_filter_compl)
  moreover have "mset (filter ok rs) + mset (filter (\<lambda>r. \<not> ok r) rs) = mset rs"
    by simp
  moreover have "set (filter ok rs) \<inter> set (filter (\<lambda>r. \<not> ok r) rs) = {}"
    by auto
  ultimately show ?thesis
    by (simp add: partitionResults_filter)
qed

text \<open>The batch of three: one result succeeded, two errored, in their order.\<close>

lemma partitionResults_example:
  "partitionResults ex_batch = ([ex_batch ! 0], [ex_batch ! 1, ex_batch ! 2])"
  by code_simp

section \<open>Loading a batch\<close>

lemma selectPrimary_calls:
  "fst (selectPrimary env succeeded st) = [] \<or>
   (\<exists>sel. fst (selectPrimary env succeeded st) = [SetPrimarySelection sel])"
  by (simp add: selectPrimary_def Let_def split: option.splits)

lemma selectPrimary_selected:
  "primarySelection st \<noteq> None \<Longrightarrow> selectPrimary env succeeded st = ([], st)"
  by (auto simp: selectPrimary_def)

text \<open>
  When every errored result has an error record, the \<^verbatim>\<open>map\<close> over them does
  not throw: it gives one line for each and logs one cause for each.
\<close>

lemma errorMessages_lines:
  "\<forall>r\<in>set errored. errors_of r \<noteq> [] \<Longrightarrow>
   errorMessages getName errored =
     (Inr (map (\<lambda>r. errorLine getName (hd (errors_of r))) errored),
      map (\<lambda>r. cause (hd (errors_of r))) errored)"
proof (induction errored)
  case Nil
  show ?case by simp
next
  case (Cons r rs)
  then show ?case by (cases "errors_of r") simp_all
qed

text \<open>
  The calls of \<^verbatim>\<open>load\<close>, whatever the import gives: the import, at most one
  \<^verbatim>\<open>setPrimarySelection\<close>, the logged causes, and then the errors set.
\<close>

lemma calls_load:
  "\<exists>selected logged errs.
     calls (load env sources st) =
       ImportDataSources sources # selected @ map LogError logged @ map SetError errs \<and>
     (selected = [] \<or> (\<exists>sel. selected = [SetPrimarySelection sel]))"
proof (cases "importDataSources env sources")
  case (Inl e)
  then have "calls (load env sources st) =
      ImportDataSources sources # [] @ map LogError [] @ map SetError [e]"
    by (simp add: load_def)
  then show ?thesis by blast
next
  case (Inr results)
  note imported = this
  obtain succeeded errored where p: "partitionResults results = (succeeded, errored)"
    by (cases "partitionResults results")
  obtain selected st' where s: "selectPrimary env succeeded st = (selected, st')"
    by (cases "selectPrimary env succeeded st")
  have sel: "selected = [] \<or> (\<exists>sel. selected = [SetPrimarySelection sel])"
    using selectPrimary_calls [of env succeeded st] s by simp
  obtain res logged where m: "errorMessages (getDataSourceName env) errored = (res, logged)"
    by (cases "errorMessages (getDataSourceName env) errored")
  show ?thesis
  proof (cases "errored = []")
    case True
    with imported p s have "calls (load env sources st) =
        ImportDataSources sources # selected @ map LogError [] @ map SetError []"
      by (simp add: load_def)
    with sel show ?thesis by blast
  next
    case False
    show ?thesis
    proof (cases res)
      case (Inl e)
      with False imported p s m have "calls (load env sources st) =
          ImportDataSources sources # selected @ map LogError logged @ map SetError []"
        by (simp add: load_def)
      with sel show ?thesis by blast
    next
      case (Inr lines)
      with False imported p s m have "calls (load env sources st) =
          ImportDataSources sources # selected @ map LogError logged
            @ map SetError [Error (failedMessage lines)]"
        by (simp add: load_def)
      with sel show ?thesis by blast
    qed
  qed
qed

text \<open>
  C8, as amended. When the import gives results of which at least one is
  errored, each errored result having an error record, \<^verbatim>\<open>loadDataSources\<close>
  calls \<^verbatim>\<open>setError\<close> exactly once, with an error whose message is the line
  \<^verbatim>\<open>These files failed to load:\<close> followed by a newline and the lines
  \<^verbatim>\<open>- <name>: <message>\<close> joined by newlines, one for each errored result in
  their order: the message is that of the first error record of the result
  and the name is the display name of entry 0 of its stack trace.
\<close>

theorem loadDataSources_setError:
  assumes "importDataSources env sources = Inr results"
    and "snd (partitionResults results) \<noteq> []"
    and "\<forall>r\<in>set (snd (partitionResults results)). errors_of r \<noteq> []"
  shows "filter isSetError (calls (loadDataSources env sources st)) =
     [SetError (Error (''These files failed to load:'' @ newline @
        join newline
          (map (\<lambda>r. ''- '' @ template_text (getDataSourceName env (innermost (hd (errors_of r))))
                    @ '': '' @ message (hd (errors_of r)))
             (snd (partitionResults results)))))]"
proof -
  obtain succeeded errored where p: "partitionResults results = (succeeded, errored)"
    by (cases "partitionResults results")
  obtain selected st' where s: "selectPrimary env succeeded st = (selected, st')"
    by (cases "selectPrimary env succeeded st")
  have sel: "filter isSetError selected = []"
    using selectPrimary_calls [of env succeeded st] s by auto
  have logs: "filter isSetError (map LogError logged) = []" for logged :: "string list"
    by (induction logged) simp_all
  from assms(2,3) p have e: "errored \<noteq> []" "\<forall>r\<in>set errored. errors_of r \<noteq> []"
    by simp_all
  note m = errorMessages_lines [OF e(2), of "getDataSourceName env"]
  show ?thesis
    using assms(1) p s e(1) m sel logs
    by (simp add: loadDataSources_def wrapWithLoading_def load_def Let_def failedMessage_def
        errorLine_def)
qed

text \<open>
  The batch of three: the message names the nested file of the archive, with
  the message of the first of its two error records, and then the second
  failed file.
\<close>

theorem loadDataSources_setError_witness:
  "importDataSources (ex_env ex_batch) ex_sources = Inr ex_batch \<and>
   snd (partitionResults ex_batch) \<noteq> [] \<and>
   filter isSetError (calls (loadDataSources (ex_env ex_batch) ex_sources (ex_stores None))) =
     [SetError (Error (''These files failed to load:'' @ newline @
        ''- inner.nii: boom'' @ newline @ ''- b.nii: bad''))]"
proof -
  have h1: "importDataSources (ex_env ex_batch) ex_sources = Inr ex_batch"
    by (simp add: ex_env_def)
  have h2: "snd (partitionResults ex_batch) \<noteq> []"
    by code_simp
  have h3: "\<forall>r\<in>set (snd (partitionResults ex_batch)). errors_of r \<noteq> []"
    by (simp add: partitionResults_filter ex_batch_def)
  have lines: "map (\<lambda>r. ''- '' @
          template_text (getDataSourceName (ex_env ex_batch) (innermost (hd (errors_of r))))
          @ '': '' @ message (hd (errors_of r))) (snd (partitionResults ex_batch))
        = [''- inner.nii: boom'', ''- b.nii: bad'']"
    by code_simp
  show ?thesis
    using loadDataSources_setError [OF h1 h2 h3, of "ex_stores None"] h1 h2
    unfolding lines by simp
qed

text \<open>
  The claim as it was written has the message be the joined lines. For the
  batch of three the one error that is set has the message with the heading
  in front, which is not the joined lines.
\<close>

theorem loadDataSources_setError_counterexample:
  "calls (loadDataSources (ex_env ex_batch) ex_sources (ex_stores None)) =
     [StartLoading, ImportDataSources ex_sources, SetPrimarySelection ''i1'',
      LogError ''c1'', LogError ''c2'',
      SetError (Error (''These files failed to load:'' @ newline @
        join newline [''- inner.nii: boom'', ''- b.nii: bad''])),
      StopLoading] \<and>
   ''These files failed to load:'' @ newline @
      join newline [''- inner.nii: boom'', ''- b.nii: bad'']
     \<noteq> join newline [''- inner.nii: boom'', ''- b.nii: bad'']"
  by code_simp

text \<open>
  C9. When the dataset store has a primary selection, \<^verbatim>\<open>loadDataSources\<close> makes
  no call of \<^verbatim>\<open>setPrimarySelection\<close>, and the primary selection is the same
  afterwards, whatever the batch gives.
\<close>

theorem loadDataSources_keeps_selection:
  assumes "primarySelection st \<noteq> None"
  shows "SetPrimarySelection sel \<notin> set (calls (loadDataSources env sources st)) \<and>
         primarySelection (stores (loadDataSources env sources st)) = primarySelection st"
proof -
  have sp: "selectPrimary env succeeded st = ([], st)" for succeeded
    using assms by (rule selectPrimary_selected)
  show ?thesis
    by (auto simp: loadDataSources_def wrapWithLoading_def load_def Let_def sp
        split: sum.splits prod.splits)
qed

text \<open>
  The batch of three has a loadable image. With the selection \<^verbatim>\<open>old\<close> in the
  store the image is not selected and \<^verbatim>\<open>old\<close> stays; the same batch with
  no selection in the store selects the image.
\<close>

theorem loadDataSources_keeps_selection_witness:
  "primarySelection (ex_stores (Some ''old'')) \<noteq> None \<and>
   SetPrimarySelection ''i1''
     \<notin> set (calls (loadDataSources (ex_env ex_batch) ex_sources (ex_stores (Some ''old'')))) \<and>
   primarySelection (stores (loadDataSources (ex_env ex_batch) ex_sources
      (ex_stores (Some ''old'')))) = Some ''old'' \<and>
   SetPrimarySelection ''i1''
     \<in> set (calls (loadDataSources (ex_env ex_batch) ex_sources (ex_stores None))) \<and>
   primarySelection (stores (loadDataSources (ex_env ex_batch) ex_sources (ex_stores None)))
     = Some ''i1''"
proof -
  have h: "primarySelection (ex_stores (Some ''old'')) \<noteq> None"
    by (simp add: ex_stores_def)
  have old: "primarySelection (ex_stores (Some ''old'')) = Some ''old''"
    by (simp add: ex_stores_def)
  have fresh: "SetPrimarySelection ''i1''
       \<in> set (calls (loadDataSources (ex_env ex_batch) ex_sources (ex_stores None)))"
    "primarySelection (stores (loadDataSources (ex_env ex_batch) ex_sources (ex_stores None)))
       = Some ''i1''"
    by code_simp+
  show ?thesis
    using loadDataSources_keeps_selection [OF h, of "''i1''" "ex_env ex_batch" ex_sources]
      h old fresh
    by simp
qed

text \<open>
  C10. Every run of \<^verbatim>\<open>loadDataSources\<close>, and so of \<^verbatim>\<open>loadFiles\<close>, calls
  \<^verbatim>\<open>startLoading\<close> first, then starts the batch import, and calls
  \<^verbatim>\<open>stopLoading\<close> last, each of the two once, also when the run ends with
  a thrown error: the wrapper puts the two calls around the calls of any
  function it wraps, however that function settles, and settles the same way.
\<close>

theorem loadDataSources_brackets:
  "calls (wrapWithLoading fn st) = StartLoading # calls (fn st) @ [StopLoading] \<and>
   outcome (wrapWithLoading fn st) = outcome (fn st) \<and>
   (\<exists>mid. calls (loadDataSources env sources st')
            = StartLoading # ImportDataSources sources # mid @ [StopLoading] \<and>
          StartLoading \<notin> set mid \<and> StopLoading \<notin> set mid \<and>
          ImportDataSources sources \<notin> set mid) \<and>
   loadFiles env fileToDataSource files st' =
     loadDataSources env (map fileToDataSource files) st'"
proof -
  obtain selected logged errs where c:
    "calls (load env sources st') =
       ImportDataSources sources # selected @ map LogError logged @ map SetError errs"
    "selected = [] \<or> (\<exists>sel. selected = [SetPrimarySelection sel])"
    using calls_load [of env sources st'] by blast
  let ?mid = "selected @ map LogError logged @ map SetError errs"
  have "calls (loadDataSources env sources st')
          = StartLoading # ImportDataSources sources # ?mid @ [StopLoading]"
    using c(1) by (simp add: loadDataSources_def wrapWithLoading_def Let_def)
  moreover have "StartLoading \<notin> set ?mid" "StopLoading \<notin> set ?mid"
    "ImportDataSources sources \<notin> set ?mid"
    using c(2) by auto
  ultimately have "\<exists>mid. calls (loadDataSources env sources st')
            = StartLoading # ImportDataSources sources # mid @ [StopLoading] \<and>
          StartLoading \<notin> set mid \<and> StopLoading \<notin> set mid \<and>
          ImportDataSources sources \<notin> set mid"
    by blast
  then show ?thesis
    by (simp add: wrapWithLoading_def loadFiles_def Let_def)
qed

text \<open>
  Two runs that meet an error. An errored result without an error record makes
  \<^verbatim>\<open>load\<close> throw a \<^verbatim>\<open>TypeError\<close>, and an import that rejects is caught and
  set as the error; both runs end with \<^verbatim>\<open>stopLoading\<close>.
\<close>

lemma loadDataSources_error_runs:
  "outcome (loadDataSources (ex_env [Failure []]) ex_sources (ex_stores None))
     = Inl (TypeError ''firstError is undefined'') \<and>
   calls (loadDataSources (ex_env [Failure []]) ex_sources (ex_stores None))
     = [StartLoading, ImportDataSources ex_sources, StopLoading] \<and>
   outcome (loadDataSources
      ((ex_env [])\<lparr>importDataSources := (\<lambda>sources. Inl (Error ''offline''))\<rparr>)
      ex_sources (ex_stores None)) = Inr () \<and>
   calls (loadDataSources
      ((ex_env [])\<lparr>importDataSources := (\<lambda>sources. Inl (Error ''offline''))\<rparr>)
      ex_sources (ex_stores None))
     = [StartLoading, ImportDataSources ex_sources, SetError (Error ''offline''), StopLoading]"
  by code_simp

section \<open>The files of a zip archive\<close>

text \<open>
  The two path functions as the spec words them: a path without a slash is
  its own basename in the root directory, and a path with a slash is its
  directory, a slash and its basename, the basename having no slash.
\<close>

lemma basename_no_slash: "CHR ''/'' \<notin> set (basename path)"
proof -
  have "CHR ''/'' \<notin> set (takeWhile (\<lambda>c. c \<noteq> CHR ''/'') (rev path))"
    by (auto dest: set_takeWhileD)
  then show ?thesis by (simp add: basename_def)
qed

lemma path_at_root:
  "CHR ''/'' \<notin> set path \<Longrightarrow> basename path = path \<and> dirname path = []"
proof -
  assume "CHR ''/'' \<notin> set path"
  then have "\<forall>c\<in>set (rev path). c \<noteq> CHR ''/''" by auto
  then have t: "takeWhile (\<lambda>c. c \<noteq> CHR ''/'') (rev path) = rev path"
    and d: "dropWhile (\<lambda>c. c \<noteq> CHR ''/'') (rev path) = []"
    by (simp_all only: takeWhile_eq_all_conv dropWhile_eq_Nil_conv)
  show ?thesis unfolding basename_def dirname_def t d by simp
qed

lemma path_split:
  assumes "CHR ''/'' \<in> set path"
  shows "path = dirname path @ ''/'' @ basename path"
proof -
  let ?P = "\<lambda>c. c \<noteq> CHR ''/''"
  from assms have "dropWhile ?P (rev path) \<noteq> []" by simp
  then obtain rest where d: "dropWhile ?P (rev path) = CHR ''/'' # rest"
    using hd_dropWhile [of ?P "rev path"] by (cases "dropWhile ?P (rev path)") auto
  have "rev path = takeWhile ?P (rev path) @ dropWhile ?P (rev path)"
    by simp
  then have "rev (rev path) = rev (takeWhile ?P (rev path) @ CHR ''/'' # rest)"
    using d by simp
  then show ?thesis
    using d by (simp add: basename_def dirname_def)
qed

lemma find_distinct:
  "distinct (map f xs) \<Longrightarrow> x \<in> set xs \<Longrightarrow> find (\<lambda>y. f y = f x) xs = Some x"
  by (induction xs) (auto simp: image_iff)

text \<open>
  The entries of an archive are stored under their names, so that the names
  are distinct; then \<^verbatim>\<open>zip.file(file.name)\<close> finds the file entry itself.
\<close>

lemma zip_file_entry:
  "distinct (map entryName archive) \<Longrightarrow> obj \<in> set archive \<Longrightarrow> \<not> dir obj \<Longrightarrow>
   zip_file archive (entryName obj) = Some obj"
  by (simp add: zip_file_def find_distinct)

lemma foldl_forEach_callback:
  assumes "distinct (map entryName archive)"
  shows "set objs \<subseteq> set archive \<Longrightarrow>
    foldl (forEach_callback archive) (promises, paths) objs =
      (promises @ map (\<lambda>obj. promise_of (basename (entryName obj)) obj)
                    (filter (\<lambda>obj. \<not> dir obj) objs),
       paths @ map (\<lambda>obj. dirname (entryName obj)) (filter (\<lambda>obj. \<not> dir obj) objs))"
proof (induction objs arbitrary: promises paths)
  case Nil
  show ?case by simp
next
  case (Cons obj objs)
  show ?case
  proof (cases "dir obj")
    case True
    then show ?thesis using Cons by (simp add: forEach_callback_def)
  next
    case False
    with Cons.prems have "zip_file archive (entryName obj) = Some obj"
      using zip_file_entry [OF assms] by simp
    with False show ?thesis using Cons
      by (simp add: forEach_callback_def Let_def)
  qed
qed

lemma Promise_all_readable:
  "\<forall>obj\<in>set objs. \<exists>blob. async_blob obj = Inr blob \<Longrightarrow>
   Promise_all (map (\<lambda>obj. promise_of (basename (entryName obj)) obj) objs) =
     Inr (map (\<lambda>obj. \<lparr>name = basename (entryName obj), bits = projr (async_blob obj)\<rparr>) objs)"
  by (induction objs) (auto simp: promise_of_def)

text \<open>
  The two arrays are filled together, so \<^verbatim>\<open>paths[index]\<close> is there for every
  file of the result.
\<close>

lemma map_enumerate_paths:
  "map (\<lambda>(index, f). \<lparr>zfile = f, archivePath = at_index (map p xs) index\<rparr>)
       (enumerate 0 (map h xs)) =
   map (\<lambda>x. \<lparr>zfile = h x, archivePath = Some (p x)\<rparr>) xs"
  (is "?l = ?r")
proof (rule nth_equalityI)
  show "length ?l = length ?r" by simp
next
  fix i
  assume "i < length ?l"
  then have "i < length xs" by simp
  then show "?l ! i = ?r ! i"
    by (simp add: nth_enumerate_eq at_index_def)
qed

text \<open>
  C3. For an archive that \<^verbatim>\<open>JSZip\<close> has loaded and whose file entries can be
  read, \<^verbatim>\<open>extractFilesFromZip\<close> returns one child for each entry that is not
  a directory, in the order in which the archive enumerates its entries: the
  file of the child has the basename of the entry as its name and the content
  of the entry, and its archive path is the directory of the entry. With no
  entries, or directories only, the list of the entries that are not
  directories is empty and so is the result, which is not an error.
\<close>

theorem extractFilesFromZip_entries:
  assumes "loadAsync zipFile = Inr archive"
    and "distinct (map entryName archive)"
    and "\<forall>obj\<in>set archive. \<not> dir obj \<longrightarrow> (\<exists>blob. async_blob obj = Inr blob)"
  shows "extractFilesFromZip loadAsync zipFile =
     Inr (map (\<lambda>obj. \<lparr>zfile = \<lparr>name = basename (entryName obj),
                                  bits = projr (async_blob obj)\<rparr>,
                        archivePath = Some (dirname (entryName obj))\<rparr>)
            (filter (\<lambda>obj. \<not> dir obj) archive))"
proof -
  let ?files = "filter (\<lambda>obj. \<not> dir obj) archive"
  have f: "foldl (forEach_callback archive) ([], []) archive =
      (map (\<lambda>obj. promise_of (basename (entryName obj)) obj) ?files,
       map (\<lambda>obj. dirname (entryName obj)) ?files)"
    using foldl_forEach_callback [OF assms(2), of archive "[]" "[]"] by simp
  have "\<forall>obj\<in>set ?files. \<exists>blob. async_blob obj = Inr blob"
    using assms(3) by simp
  from Promise_all_readable [OF this] assms(1) f show ?thesis
    by (simp add: extractFilesFromZip_def map_enumerate_paths)
qed

text \<open>
  An archive with the directory \<^verbatim>\<open>a/\<close>, the file \<^verbatim>\<open>a/b/c.txt\<close> and the file
  \<^verbatim>\<open>d.txt\<close> gives two children, \<^verbatim>\<open>c.txt\<close> in \<^verbatim>\<open>a/b\<close> and \<^verbatim>\<open>d.txt\<close> at the
  root; an archive of the directory alone and an empty archive give none.
\<close>

theorem extractFilesFromZip_entries_witness:
  "distinct (map entryName ex_archive) \<and>
   extractFilesFromZip (\<lambda>f. Inr ex_archive) \<lparr>name = ''data.zip'', bits = []\<rparr> =
     Inr [\<lparr>zfile = \<lparr>name = ''c.txt'', bits = [1, 2]\<rparr>, archivePath = Some ''a/b''\<rparr>,
          \<lparr>zfile = \<lparr>name = ''d.txt'', bits = [3]\<rparr>, archivePath = Some []\<rparr>] \<and>
   extractFilesFromZip (\<lambda>f. Inr (take 1 ex_archive)) \<lparr>name = ''data.zip'', bits = []\<rparr>
     = Inr [] \<and>
   extractFilesFromZip (\<lambda>f. Inr []) \<lparr>name = ''data.zip'', bits = []\<rparr> = Inr []"
proof -
  let ?zip = "\<lparr>name = ''data.zip'', bits = []\<rparr>"
  let ?child = "\<lambda>obj. \<lparr>zfile = \<lparr>name = basename (entryName obj),
                                  bits = projr (async_blob obj)\<rparr>,
                        archivePath = Some (dirname (entryName obj))\<rparr>"
  have d: "distinct (map entryName ex_archive)" "distinct (map entryName (take 1 ex_archive))"
    "distinct (map entryName ([] :: JSZip))"
    by (simp_all add: ex_archive_def)
  have r: "\<forall>obj\<in>set ex_archive. \<not> dir obj \<longrightarrow> (\<exists>blob. async_blob obj = Inr blob)"
    "\<forall>obj\<in>set (take 1 ex_archive). \<not> dir obj \<longrightarrow> (\<exists>blob. async_blob obj = Inr blob)"
    "\<forall>obj\<in>set ([] :: JSZip). \<not> dir obj \<longrightarrow> (\<exists>blob. async_blob obj = Inr blob)"
    by (simp_all add: ex_archive_def)
  have v: "map ?child (filter (\<lambda>obj. \<not> dir obj) ex_archive) =
      [\<lparr>zfile = \<lparr>name = ''c.txt'', bits = [1, 2]\<rparr>, archivePath = Some ''a/b''\<rparr>,
       \<lparr>zfile = \<lparr>name = ''d.txt'', bits = [3]\<rparr>, archivePath = Some []\<rparr>]"
    "map ?child (filter (\<lambda>obj. \<not> dir obj) (take 1 ex_archive)) = []"
    by (simp_all add: ex_archive_def basename_def dirname_def)
  show ?thesis
    using extractFilesFromZip_entries [of "\<lambda>f. Inr ex_archive" ?zip ex_archive, OF _ d(1) r(1)]
      extractFilesFromZip_entries [of "\<lambda>f. Inr (take 1 ex_archive)" ?zip "take 1 ex_archive",
        OF _ d(2) r(2)]
      extractFilesFromZip_entries [of "\<lambda>f. Inr []" ?zip "[]", OF _ d(3) r(3)]
      d(1) v
    by simp
qed

text \<open>
  An archive that cannot be opened, and an entry that cannot be read, make
  the function reject.
\<close>

lemma extractFilesFromZip_rejects:
  "extractFilesFromZip (\<lambda>f. Inl (Error ''corrupt'')) zipFile = Inl (Error ''corrupt'') \<and>
   extractFilesFromZip
     (\<lambda>f. Inr [\<lparr>entryName = ''x.bin'', dir = False, async_blob = Inl (Error ''crc'')\<rparr>]) zipFile
     = Inl (Error ''crc'')"
  by (simp add: extractFilesFromZip_def forEach_callback_def zip_file_def promise_of_def)

section \<open>The single-file handler\<close>

text \<open>
  C7. A data source without a file source, and one whose file type has no
  reader in the registry, is returned as it is: the handler does not call
  \<^verbatim>\<open>done\<close>, does not throw and leaves the stores as they are.
\<close>

theorem importSingleFile_passthrough:
  assumes "fileSrc ds = None \<or>
           (\<exists>fsrc. fileSrc ds = Some fsrc \<and> FILE_READERS env (fileType fsrc) = None)"
  shows "importSingleFile env ds st = (Return ds, st)"
  using assms by (auto simp: importSingleFile_def)

text \<open>A data source without a file, and a file of a type without a reader.\<close>

theorem importSingleFile_passthrough_witness:
  "fileSrc (DataSource None (Some ''a/b'') None) = None \<and>
   importSingleFile ex_importEnv (DataSource None (Some ''a/b'') None) []
     = (Return (DataSource None (Some ''a/b'') None), []) \<and>
   FILE_READERS ex_importEnv ''txt'' = None \<and>
   importSingleFile ex_importEnv (ex_file_source ''txt'' ''notes.txt'') []
     = (Return (ex_file_source ''txt'' ''notes.txt''), [])"
proof -
  let ?bare = "DataSource None (Some ''a/b'') None"
  let ?txt = "ex_file_source ''txt'' ''notes.txt''"
  have h1: "fileSrc ?bare = None" by simp
  have none: "FILE_READERS ex_importEnv ''txt'' = None"
    by (simp add: ex_importEnv_def)
  then have h2: "fileSrc ?txt = None \<or>
      (\<exists>fsrc. fileSrc ?txt = Some fsrc \<and> FILE_READERS ex_importEnv (fileType fsrc) = None)"
    by (simp add: ex_file_source_def)
  show ?thesis
    using importSingleFile_passthrough [of ?bare ex_importEnv "[]"]
      importSingleFile_passthrough [OF h2, of "[]"] h1 none
    by simp
qed

text \<open>
  C6. For a data source with a file source whose file type has a reader, the
  handler never passes the data source on. When the reader gives an object
  that is a \<^verbatim>\<open>vtkImageData\<close>, the handler registers it with the image store
  under the name of the file, adds the data source to the file store under the
  data ID it got, and calls \<^verbatim>\<open>done\<close> with the one result of that data ID,
  the data source and the kind image. When the reader gives an object of any
  other kind, the handler throws the error
  \<^verbatim>\<open>Data reader did not produce a valid dataset\<close> and the stores are as before;
  when the reader itself fails, its error is thrown.
\<close>

theorem importSingleFile_reader:
  assumes "fileSrc ds = Some fsrc" and "FILE_READERS env (fileType fsrc) = Some reader"
  shows "(\<forall>next. fst (importSingleFile env ds st) \<noteq> Return next) \<and>
    (\<forall>dataObject. reader (srcFile fsrc) = Inr dataObject \<longrightarrow>
       (if isA dataObject ''vtkImageData'' then
          importSingleFile env ds st =
            (Done \<lparr>dataID = fst (addVTKImageData env (name (srcFile fsrc)) dataObject st),
                   dataSource = ds, dataType = image\<rparr>,
             fileStore_add env (fst (addVTKImageData env (name (srcFile fsrc)) dataObject st))
               [ds] (snd (addVTKImageData env (name (srcFile fsrc)) dataObject st)))
        else
          importSingleFile env ds st =
            (Throw (Error ''Data reader did not produce a valid dataset''), st))) \<and>
    (\<forall>e. reader (srcFile fsrc) = Inl e \<longrightarrow> importSingleFile env ds st = (Throw e, st))"
  using assms by (auto simp: importSingleFile_def split: sum.splits prod.splits)

text \<open>
  An image file is registered and done; a mesh file, whose reader gives a
  \<^verbatim>\<open>vtkPolyData\<close>, and a file whose reader fails make the handler throw.
\<close>

theorem importSingleFile_reader_witness:
  "importSingleFile ex_importEnv (ex_file_source ''nii'' ''brain.nii'') [] =
     (Done \<lparr>dataID = ''image:brain.nii'', dataSource = ex_file_source ''nii'' ''brain.nii'',
            dataType = image\<rparr>,
      [(''image:brain.nii'', [ex_file_source ''nii'' ''brain.nii''])]) \<and>
   importSingleFile ex_importEnv (ex_file_source ''vtp'' ''mesh.vtp'') [] =
     (Throw (Error ''Data reader did not produce a valid dataset''), []) \<and>
   importSingleFile ex_importEnv (ex_file_source ''raw'' ''scan.raw'') [] =
     (Throw (Error ''cannot read''), [])"
proof -
  let ?img = "\<lparr>classHierarchy = [''vtkObject'', ''vtkDataSet'', ''vtkImageData'']\<rparr>"
  let ?mesh = "\<lparr>classHierarchy = [''vtkObject'', ''vtkDataSet'', ''vtkPolyData'']\<rparr>"
  have s: "fileSrc (ex_file_source kind nm)
      = Some \<lparr>fileType = kind, srcFile = \<lparr>name = nm, bits = []\<rparr>\<rparr>" for kind nm
    by (simp add: ex_file_source_def)
  have r: "FILE_READERS ex_importEnv ''nii'' = Some (\<lambda>f. Inr ?img)"
    "FILE_READERS ex_importEnv ''vtp'' = Some (\<lambda>f. Inr ?mesh)"
    "FILE_READERS ex_importEnv ''raw'' = Some (\<lambda>f. Inl (Error ''cannot read''))"
    by (simp_all add: ex_importEnv_def)
  have a: "isA ?img ''vtkImageData''" "\<not> isA ?mesh ''vtkImageData''"
    by (simp_all add: isA_def)
  have st: "addVTKImageData ex_importEnv = (\<lambda>nm dataObject st. (''image:'' @ nm, st))"
    "fileStore_add ex_importEnv = (\<lambda>ident sources st. (ident, sources) # st)"
    by (simp_all add: ex_importEnv_def)
  let ?src = "\<lambda>kind nm. \<lparr>fileType = kind, srcFile = \<lparr>name = nm, bits = []\<rparr>\<rparr>"
  show ?thesis
    using
      importSingleFile_reader [of "ex_file_source ''nii'' ''brain.nii''"
        "?src ''nii'' ''brain.nii''" ex_importEnv "\<lambda>f. Inr ?img" "[]"]
      importSingleFile_reader [of "ex_file_source ''vtp'' ''mesh.vtp''"
        "?src ''vtp'' ''mesh.vtp''" ex_importEnv "\<lambda>f. Inr ?mesh" "[]"]
      importSingleFile_reader [of "ex_file_source ''raw'' ''scan.raw''"
        "?src ''raw'' ''scan.raw''" ex_importEnv "\<lambda>f. Inl (Error ''cannot read'')" "[]"]
      s r a st
    by simp
qed


end
